theory Spec2Isabelle
  imports Main "HOL-Library.Multiset" "HOL-Library.Word"
begin

section \<open>The project/task tracker: data-access layer of app.py\<close>

text \<open>
  The data-access functions of \<^verbatim>\<open>app.py\<close> are SQL statements run against two tables
  over one cached connection. The store below is the content of those tables as the
  schema of \<^verbatim>\<open>init_db\<close> declares them and as the session's connection sees them, in
  heap (insertion) order, together with the two \<^verbatim>\<open>SERIAL\<close> sequences.

  Python's \<^verbatim>\<open>int\<close> is \<^typ>\<open>int\<close> and \<^verbatim>\<open>str\<close> is \<^typ>\<open>string\<close>. The column
  \<^verbatim>\<open>sno INTEGER\<close> holds 32-bit signed values (\<^typ>\<open>32 word\<close>, read with \<^const>\<open>sint\<close>):
  an insert of a value outside that range fails. A text parameter that holds the
  character NUL is refused by the driver before the statement is sent; this is
  modelled where the texts of a frame reach the driver, in \<^verbatim>\<open>save_tasks\<close>. Surrogate
  keys are \<^typ>\<open>nat\<close>; the exhaustion of a sequence and a loss of the connection are
  not part of the model.
\<close>

subsection \<open>Tables\<close>

text \<open>\<^verbatim>\<open>projects(id SERIAL PRIMARY KEY, name TEXT UNIQUE NOT NULL)\<close>\<close>

record project_row =
  p_id :: nat
  p_name :: string

text \<open>
  \<^verbatim>\<open>tasks(id SERIAL PRIMARY KEY, project_id INTEGER REFERENCES projects(id) ON DELETE CASCADE,
  sno INTEGER NOT NULL, task TEXT NOT NULL, comments TEXT NOT NULL, status TEXT NOT NULL)\<close>.
  The column \<^verbatim>\<open>project_id\<close> carries no \<^verbatim>\<open>NOT NULL\<close>, hence the option.
\<close>

record task_row =
  t_id :: nat
  t_project_id :: "nat option"
  t_sno :: "32 word"
  t_task :: string
  t_comments :: string
  t_status :: string

record store =
  projects :: "project_row list"
  tasks :: "task_row list"
  projects_id_seq :: nat
  tasks_id_seq :: nat

text \<open>
  The exceptions that reach a caller of the layer: the \<^verbatim>\<open>UNIQUE\<close> constraint on
  \<^verbatim>\<open>projects.name\<close>; a value outside the \<^verbatim>\<open>INTEGER\<close> column (raised by the server);
  a text with a NUL character (raised by the driver); a non-finite number in
  \<^verbatim>\<open>astype(int)\<close> (raised by pandas).
\<close>

datatype error = UniqueViolation | NumericValueOutOfRange | ValueError | IntCastingNaNError

text \<open>\<^verbatim>\<open>init_db\<close> on a fresh database: both tables exist and are empty, the sequences
  have handed out nothing yet (the first \<^verbatim>\<open>nextval\<close> is 1).\<close>

definition init_db :: store where
  "init_db = \<lparr>projects = [], tasks = [], projects_id_seq = 0, tasks_id_seq = 0\<rparr>"

subsection \<open>Data frames and fetched rows\<close>

text \<open>A row of the data frame with the columns \<^verbatim>\<open>S.No.\<close>, \<^verbatim>\<open>Task\<close>,
  \<^verbatim>\<open>Comments\<close>, \<^verbatim>\<open>Status\<close>; a data frame is the list of its rows.\<close>

record frame_row =
  S_No :: int
  Task :: string
  Comments :: string
  Status :: string

type_synonym data_frame = "frame_row list"

text \<open>
  What \<^verbatim>\<open>cur.fetchall()\<close> hands to pandas before the coercions of \<^verbatim>\<open>load_tasks\<close>:
  a Python object per column. The \<^verbatim>\<open>S.No.\<close> cell may be \<^verbatim>\<open>None\<close>, an integer of the
  column's type or a text; a text cell is a string or \<^verbatim>\<open>None\<close>.
\<close>

datatype cell = Null | IntVal "32 word" | TextVal string

record fetched_row =
  f_sno :: cell
  f_task :: "string option"
  f_comments :: "string option"
  f_status :: "string option"

definition empty_df :: data_frame where
  "empty_df = []"

subsection \<open>What lies outside the repository\<close>

text \<open>
  What \<^verbatim>\<open>pd.to_numeric\<close> makes of a text in a column: not a number (\<^verbatim>\<open>NaN\<close> under
  \<^verbatim>\<open>errors="coerce"\<close>), an infinity, or a finite number, given here by the integer that
  \<^verbatim>\<open>astype(int)\<close> makes of it in the end.
\<close>

datatype parsed = NotANumber | Infinity | Number int

text \<open>
  Two things the source leaves to its libraries and to the engine are parameters of
  the model. \<open>tie_order\<close> is the order in which the engine delivers the selected rows
  to the sort of \<^verbatim>\<open>ORDER BY sno\<close>: SQL leaves the order of rows with equal \<^verbatim>\<open>sno\<close> open,
  and sorting the rows by any key before the stable sort by \<^verbatim>\<open>sno\<close> gives every order
  the engine may return and no other. \<open>to_numeric\<close> is the parser of pandas, which may
  depend on the column the text stands in.
\<close>

record environment =
  tie_order :: "task_row list \<Rightarrow> task_row \<Rightarrow> nat"
  to_numeric :: "cell list \<Rightarrow> string \<Rightarrow> parsed"

subsection \<open>Project helpers\<close>

text \<open>\<^verbatim>\<open>SELECT name FROM projects ORDER BY id\<close>\<close>

definition get_projects :: "store \<Rightarrow> string list" where
  "get_projects s = map p_name (sort_key p_id (projects s))"

text \<open>\<^verbatim>\<open>SELECT id FROM projects WHERE name = %s\<close>, then \<^verbatim>\<open>fetchone\<close>:
  \<^verbatim>\<open>row[0] if row else None\<close>.\<close>

definition get_project_id :: "string \<Rightarrow> store \<Rightarrow> nat option" where
  "get_project_id name s =
     (case filter (\<lambda>p. p_name p = name) (projects s) of
        [] \<Rightarrow> None
      | row # _ \<Rightarrow> Some (p_id row))"

text \<open>
  \<^verbatim>\<open>INSERT INTO projects (name) VALUES (%s)\<close>, then \<^verbatim>\<open>commit\<close>. The default of
  \<^verbatim>\<open>id\<close> takes the next value of the sequence, which is not given back when the
  statement fails; a failed statement leaves both tables as they were and the
  exception reaches the caller (the first component of the result).
\<close>

definition create_project :: "string \<Rightarrow> store \<Rightarrow> error option \<times> store" where
  "create_project name s =
     (let new_id = projects_id_seq s + 1;
          s1 = s\<lparr>projects_id_seq := new_id\<rparr>
      in if name \<in> set (map p_name (projects s))
         then (Some UniqueViolation, s1)
         else (None, s1\<lparr>projects := projects s @ [\<lparr>p_id = new_id, p_name = name\<rparr>]\<rparr>))"

text \<open>
  \<^verbatim>\<open>DELETE FROM projects WHERE name = %s\<close>, then \<^verbatim>\<open>commit\<close>. The foreign key of
  \<^verbatim>\<open>tasks.project_id\<close> is \<^verbatim>\<open>ON DELETE CASCADE\<close>: the tasks that reference a deleted
  project row go with it.
\<close>

definition delete_project :: "string \<Rightarrow> store \<Rightarrow> error option \<times> store" where
  "delete_project name s =
     (let deleted_ids = map p_id (filter (\<lambda>p. p_name p = name) (projects s))
      in (None,
          s\<lparr>projects := filter (\<lambda>p. p_name p \<noteq> name) (projects s),
            tasks := filter (\<lambda>t. case t_project_id t of
                                     None \<Rightarrow> True
                                   | Some i \<Rightarrow> i \<notin> set deleted_ids) (tasks s)\<rparr>))"

subsection \<open>Task helpers: load\_tasks\<close>

text \<open>
  \<^verbatim>\<open>SELECT sno, task, comments, status FROM tasks WHERE project_id = %s ORDER BY sno\<close>:
  the selected rows, delivered in the engine's order, sorted by \<^verbatim>\<open>sno\<close>.
\<close>

definition fetch_tasks :: "environment \<Rightarrow> nat \<Rightarrow> store \<Rightarrow> fetched_row list" where
  "fetch_tasks env pid s =
     (let selected = filter (\<lambda>t. t_project_id t = Some pid) (tasks s);
          delivered = sort_key (tie_order env selected) selected
      in map (\<lambda>t. \<lparr>f_sno = IntVal (t_sno t), f_task = Some (t_task t),
                    f_comments = Some (t_comments t), f_status = Some (t_status t)\<rparr>)
             (sort_key (\<lambda>t. sint (t_sno t)) delivered))"

text \<open>
  \<^verbatim>\<open>pd.to_numeric(col, errors="coerce")\<close> on the whole column: \<^verbatim>\<open>None\<close> becomes
  \<^verbatim>\<open>NaN\<close>, an integer of the column stays the number it is (a 32-bit value is exact in
  \<^verbatim>\<open>int64\<close> and in \<^verbatim>\<open>float64\<close>), a text is parsed.
\<close>

definition to_numeric_coerce :: "environment \<Rightarrow> cell list \<Rightarrow> parsed list" where
  "to_numeric_coerce env col =
     map (\<lambda>c. case c of
                 Null \<Rightarrow> NotANumber
               | IntVal n \<Rightarrow> Number (sint n)
               | TextVal txt \<Rightarrow> to_numeric env col txt) col"

text \<open>\<^verbatim>\<open>.fillna(0)\<close>\<close>

definition fillna_0 :: "parsed list \<Rightarrow> parsed list" where
  "fillna_0 col = map (\<lambda>x. case x of NotANumber \<Rightarrow> Number 0 | _ \<Rightarrow> x) col"

text \<open>\<^verbatim>\<open>.astype(int)\<close>: raises when a value of the column is not finite.\<close>

fun astype_int :: "parsed list \<Rightarrow> error + int list" where
  "astype_int [] = Inr []"
| "astype_int (Number n # col) =
     (case astype_int col of Inl e \<Rightarrow> Inl e | Inr ns \<Rightarrow> Inr (n # ns))"
| "astype_int (x # col) = Inl IntCastingNaNError"

text \<open>\<^verbatim>\<open>col.fillna(v).astype(str)\<close> on a text column.\<close>

definition fillna :: "string \<Rightarrow> string option \<Rightarrow> string" where
  "fillna v c = (case c of None \<Rightarrow> v | Some txt \<Rightarrow> txt)"

text \<open>Lines 132 to 137: the frame of the fetched rows, column by column; the
  conversion of the first column may raise.\<close>

definition frame_of_rows :: "environment \<Rightarrow> fetched_row list \<Rightarrow> error + data_frame" where
  "frame_of_rows env rows =
     (case astype_int (fillna_0 (to_numeric_coerce env (map f_sno rows))) of
        Inl e \<Rightarrow> Inl e
      | Inr snos \<Rightarrow>
          Inr (map (\<lambda>(n, r). \<lparr>S_No = n,
                              Task = fillna '''' (f_task r),
                              Comments = fillna '''' (f_comments r),
                              Status = fillna ''Pending'' (f_status r)\<rparr>) (zip snos rows)))"

definition load_tasks :: "environment \<Rightarrow> string \<Rightarrow> store \<Rightarrow> error + data_frame" where
  "load_tasks env project_name s =
     (case get_project_id project_name s of
        None \<Rightarrow> Inr empty_df
      | Some pid \<Rightarrow>
          (let rows = fetch_tasks env pid s
           in if rows = [] then Inr empty_df else frame_of_rows env rows))"

subsection \<open>Task helpers: save\_tasks\<close>

text \<open>A value fits the \<^verbatim>\<open>INTEGER\<close> column; a text holds the character NUL.\<close>

definition int4_range :: "int \<Rightarrow> bool" where
  "int4_range n \<longleftrightarrow> - 2147483648 \<le> n \<and> n < 2147483648"

definition has_nul :: "string \<Rightarrow> bool" where
  "has_nul txt \<longleftrightarrow> CHR 0x00 \<in> set txt"

text \<open>
  \<^verbatim>\<open>executemany("INSERT INTO tasks (project_id, sno, task, comments, status) VALUES ...", rows)\<close>:
  one insert per row, in order, each taking the next value of the sequence for \<^verbatim>\<open>id\<close>.
  The driver refuses a row with a NUL in a text before sending it; the server refuses a
  row whose \<^verbatim>\<open>sno\<close> is outside the column. The first refusal ends the loop; the result
  holds the rows inserted before it.
\<close>

fun executemany_insert ::
  "(nat \<times> int \<times> string \<times> string \<times> string) list \<Rightarrow> store \<Rightarrow> error option \<times> store" where
  "executemany_insert [] s = (None, s)"
| "executemany_insert ((pid, sno, task, comments, status) # rows) s =
     (if has_nul task \<or> has_nul comments \<or> has_nul status then (Some ValueError, s)
      else if \<not> int4_range sno then (Some NumericValueOutOfRange, s)
      else executemany_insert rows
             (s\<lparr>tasks := tasks s @
                   [\<lparr>t_id = tasks_id_seq s + 1, t_project_id = Some pid,
                     t_sno = word_of_int sno, t_task = task, t_comments = comments,
                     t_status = status\<rparr>],
                tasks_id_seq := tasks_id_seq s + 1\<rparr>))"

text \<open>
  \<^verbatim>\<open>save_tasks\<close>: return at once when the project is unknown; otherwise
  \<^verbatim>\<open>DELETE FROM tasks WHERE project_id = %s\<close>, the inserts when the frame is not empty,
  and one \<^verbatim>\<open>commit\<close>. On the typed rows of a frame \<^verbatim>\<open>int(row["S.No."])\<close> and
  \<^verbatim>\<open>str(row[...])\<close> return their argument.

  The function has no handler, so an exception of \<^verbatim>\<open>executemany\<close> skips the
  \<^verbatim>\<open>commit\<close> and reaches the caller. After the server's refusal the transaction is
  aborted and the connection is replaced by \<^verbatim>\<open>db()\<close>: the tables are as they were
  before the call (the sequence values are not given back). After the driver's refusal
  nothing is rolled back: the transaction stays open on the cached connection, the
  session sees the delete and the inserts made so far, and the next \<^verbatim>\<open>commit\<close> makes
  them permanent.

  The store does not separate committed rows from the rows of an open transaction. The
  two differ only after the driver's refusal; a server-side failure of a later call
  would then take the uncommitted rows back with the aborted transaction, which the
  model does not follow.
\<close>

definition save_tasks :: "string \<Rightarrow> data_frame \<Rightarrow> store \<Rightarrow> error option \<times> store" where
  "save_tasks project_name df s =
     (case get_project_id project_name s of
        None \<Rightarrow> (None, s)
      | Some pid \<Rightarrow>
          (let s1 = s\<lparr>tasks := filter (\<lambda>t. t_project_id t \<noteq> Some pid) (tasks s)\<rparr>
           in if df \<noteq> []
              then (case executemany_insert
                           (map (\<lambda>row. (pid, S_No row, Task row, Comments row, Status row)) df) s1 of
                      (None, s2) \<Rightarrow> (None, s2)
                    | (Some ValueError, s2) \<Rightarrow> (Some ValueError, s2)
                    | (Some e, s2) \<Rightarrow> (Some e, s\<lparr>tasks_id_seq := tasks_id_seq s2\<rparr>))
              else (None, s1)))"

subsection \<open>Runs of the layer\<close>

text \<open>The six operations of the layer as commands, and the store after running a
  list of them in order. The three reads leave the store as it is.\<close>

datatype command =
    CreateProject string
  | DeleteProject string
  | SaveTasks string data_frame
  | LoadTasks string
  | ListProjects
  | GetProjectId string

fun exec :: "command \<Rightarrow> store \<Rightarrow> store" where
  "exec (CreateProject name) s = snd (create_project name s)"
| "exec (DeleteProject name) s = snd (delete_project name s)"
| "exec (SaveTasks name df) s = snd (save_tasks name df s)"
| "exec (LoadTasks name) s = s"
| "exec ListProjects s = s"
| "exec (GetProjectId name) s = s"

definition run :: "command list \<Rightarrow> store \<Rightarrow> store" where
  "run cmds s = fold exec cmds s"

subsection \<open>Notions used in the statements\<close>

text \<open>A task row without its surrogate key, and the frame row it is read back as.\<close>

definition task_columns :: "task_row \<Rightarrow> nat option \<times> int \<times> string \<times> string \<times> string" where
  "task_columns t = (t_project_id t, sint (t_sno t), t_task t, t_comments t, t_status t)"

definition frame_row_of :: "task_row \<Rightarrow> frame_row" where
  "frame_row_of t =
     \<lparr>S_No = sint (t_sno t), Task = t_task t, Comments = t_comments t, Status = t_status t\<rparr>"

text \<open>A frame row that the table can hold: its \<^verbatim>\<open>S.No.\<close> fits the \<^verbatim>\<open>INTEGER\<close> column
  and its texts hold no NUL.\<close>

definition storable :: "frame_row \<Rightarrow> bool" where
  "storable r \<longleftrightarrow>
     int4_range (S_No r) \<and> \<not> has_nul (Task r) \<and> \<not> has_nul (Comments r) \<and> \<not> has_nul (Status r)"

text \<open>
  The constraints of the schema on a store: both keys of \<^verbatim>\<open>projects\<close> are unique, the
  sequence of \<^verbatim>\<open>projects.id\<close> is not behind the keys it handed out, and every task
  references a project row.
\<close>

definition store_ok :: "store \<Rightarrow> bool" where
  "store_ok s \<longleftrightarrow>
     distinct (map p_id (projects s)) \<and>
     distinct (map p_name (projects s)) \<and>
     (\<forall>p \<in> set (projects s). p_id p \<le> projects_id_seq s) \<and>
     (\<forall>t \<in> set (tasks s). \<exists>p \<in> set (projects s). t_project_id t = Some (p_id p))"



text \<open>The example of the specification: project \<^verbatim>\<open>Audit\<close> and its two tasks.\<close>

definition audit_tasks :: data_frame where
  "audit_tasks =
     [\<lparr>S_No = 1, Task = ''Review logs'', Comments = '''', Status = ''Pending''\<rparr>,
      \<lparr>S_No = 2, Task = ''Patch CVE'', Comments = ''urgent'', Status = ''Partial''\<rparr>]"

definition audit_store :: store where
  "audit_store = run [CreateProject ''Audit'', SaveTasks ''Audit'' audit_tasks] init_db"


text \<open>An environment for the examples: the engine delivers the rows in heap order, and
  no text is read as a number.\<close>

definition plain :: environment where
  "plain = \<lparr>tie_order = (\<lambda>rows t. 0), to_numeric = (\<lambda>col txt. NotANumber)\<rparr>"

text \<open>Two frames that the table cannot hold: an \<^verbatim>\<open>S.No.\<close> of 2147483648 (two to
  the power 31), and a text with a NUL character.\<close>

definition overflow_tasks :: data_frame where
  "overflow_tasks =
     [\<lparr>S_No = 2147483648, Task = ''Review logs'', Comments = '''', Status = ''Pending''\<rparr>]"

definition nul_tasks :: data_frame where
  "nul_tasks =
     [\<lparr>S_No = 1, Task = [CHR ''a'', CHR 0x00], Comments = '''', Status = ''Pending''\<rparr>]"

section \<open>Auxiliary facts\<close>

subsection \<open>Looking a project up\<close>

lemma filter_eq_Cons_mem: "filter P xs = y # ys \<Longrightarrow> y \<in> set xs \<and> P y"
proof -
  assume "filter P xs = y # ys"
  then have "y \<in> set (filter P xs)" by simp
  then show ?thesis by simp
qed


lemma get_project_id_None_iff:
  "get_project_id name s = None \<longleftrightarrow> name \<notin> set (get_projects s)"
  by (auto simp: get_project_id_def get_projects_def filter_empty_conv split: list.splits
           dest: filter_eq_Cons_mem)

lemma get_project_id_Some_mem:
  "get_project_id name s = Some pid \<Longrightarrow> \<exists>p \<in> set (projects s). p_name p = name \<and> p_id p = pid"
  unfolding get_project_id_def
  by (auto split: list.splits dest: filter_eq_Cons_mem)


subsection \<open>The INTEGER column\<close>

lemma sint_word_of_int4: "int4_range n \<Longrightarrow> sint (word_of_int n :: 32 word) = n"
  by (simp add: int4_range_def sint_sbintrunc' signed_take_bit_int_eq_self)


subsection \<open>What the inserts of save\_tasks leave behind\<close>

text \<open>On every path the inserts touch nothing but the tasks table and its sequence,
  and the rows they add carry the project key of a row they were given.\<close>

lemma executemany_insert_adds:
  "projects (snd (executemany_insert rows s)) = projects s \<and>
   projects_id_seq (snd (executemany_insert rows s)) = projects_id_seq s \<and>
   (\<exists>new. tasks (snd (executemany_insert rows s)) = tasks s @ new \<and>
          (\<forall>t \<in> set new. \<exists>row \<in> set rows. t_project_id t = Some (fst row)))"
proof (induction rows s rule: executemany_insert.induct)
  case (1 s)
  then show ?case by simp
next
  case (2 pid sno task comments status rows s)
  let ?t = "\<lparr>t_id = tasks_id_seq s + 1, t_project_id = Some pid, t_sno = word_of_int sno,
             t_task = task, t_comments = comments, t_status = status\<rparr>"
  let ?s' = "s\<lparr>tasks := tasks s @ [?t], tasks_id_seq := tasks_id_seq s + 1\<rparr>"
  show ?case
  proof (cases "has_nul task \<or> has_nul comments \<or> has_nul status \<or> \<not> int4_range sno")
    case True
    then show ?thesis by auto
  next
    case False
    then have step: "executemany_insert ((pid, sno, task, comments, status) # rows) s =
        executemany_insert rows ?s'"
      by simp
    from False 2 obtain new where
      "projects (snd (executemany_insert rows ?s')) = projects ?s'"
      "projects_id_seq (snd (executemany_insert rows ?s')) = projects_id_seq ?s'"
      "tasks (snd (executemany_insert rows ?s')) = tasks ?s' @ new"
      "\<forall>t \<in> set new. \<exists>row \<in> set rows. t_project_id t = Some (fst row)"
      by auto
    then show ?thesis
      unfolding step by (intro conjI exI[of _ "?t # new"]) auto
  qed
qed

text \<open>When every row can be stored, the inserts succeed and add the rows as given.\<close>

lemma executemany_insert_ok:
  assumes "\<forall>(pid, sno, task, comments, status) \<in> set rows.
             int4_range sno \<and> \<not> has_nul task \<and> \<not> has_nul comments \<and> \<not> has_nul status"
  shows "fst (executemany_insert rows s) = None \<and>
         (\<exists>new. tasks (snd (executemany_insert rows s)) = tasks s @ new \<and>
                map task_columns new = map (\<lambda>(pid, r). (Some pid, r)) rows)"
  using assms
proof (induction rows s rule: executemany_insert.induct)
  case (1 s)
  then show ?case by simp
next
  case (2 pid sno task comments status rows s)
  let ?t = "\<lparr>t_id = tasks_id_seq s + 1, t_project_id = Some pid, t_sno = word_of_int sno,
             t_task = task, t_comments = comments, t_status = status\<rparr>"
  let ?s' = "s\<lparr>tasks := tasks s @ [?t], tasks_id_seq := tasks_id_seq s + 1\<rparr>"
  from "2.prems" have ok: "int4_range sno" "\<not> has_nul task" "\<not> has_nul comments" "\<not> has_nul status"
    and rest: "\<forall>(pid, sno, task, comments, status) \<in> set rows.
             int4_range sno \<and> \<not> has_nul task \<and> \<not> has_nul comments \<and> \<not> has_nul status"
    by simp_all
  from ok have step: "executemany_insert ((pid, sno, task, comments, status) # rows) s =
        executemany_insert rows ?s'"
    by simp
  from ok have nok: "\<not> (has_nul task \<or> has_nul comments \<or> has_nul status)" by simp
  from "2.IH" [OF nok _ rest] ok(1) obtain new where
    new: "fst (executemany_insert rows ?s') = None"
         "tasks (snd (executemany_insert rows ?s')) = tasks ?s' @ new"
         "map task_columns new = map (\<lambda>(pid, r). (Some pid, r)) rows"
    by auto
  have "task_columns ?t = (Some pid, sno, task, comments, status)"
    using ok(1) by (simp add: task_columns_def sint_word_of_int4)
  with new show ?case
    unfolding step by (intro conjI exI[of _ "?t # new"]) simp_all
qed

lemma snd_save_tasks_cases:
  assumes "get_project_id name s = Some pid"
  shows "snd (save_tasks name df s) = s\<lparr>tasks := filter (\<lambda>t. t_project_id t \<noteq> Some pid) (tasks s)\<rparr> \<or>
         snd (save_tasks name df s) =
           snd (executemany_insert
                  (map (\<lambda>row. (pid, S_No row, Task row, Comments row, Status row)) df)
                  (s\<lparr>tasks := filter (\<lambda>t. t_project_id t \<noteq> Some pid) (tasks s)\<rparr>)) \<or>
         snd (save_tasks name df s) =
           s\<lparr>tasks_id_seq := tasks_id_seq
              (snd (executemany_insert
                  (map (\<lambda>row. (pid, S_No row, Task row, Comments row, Status row)) df)
                  (s\<lparr>tasks := filter (\<lambda>t. t_project_id t \<noteq> Some pid) (tasks s)\<rparr>)))\<rparr>"
proof -
  let ?s1 = "s\<lparr>tasks := filter (\<lambda>t. t_project_id t \<noteq> Some pid) (tasks s)\<rparr>"
  let ?rows = "map (\<lambda>row. (pid, S_No row, Task row, Comments row, Status row)) df"
  obtain e s2 where r: "executemany_insert ?rows ?s1 = (e, s2)"
    by (cases "executemany_insert ?rows ?s1") auto
  show ?thesis
  proof (cases e)
    case None
    with assms r show ?thesis by (simp add: save_tasks_def Let_def)
  next
    case (Some err)
    with assms r show ?thesis by (cases err) (simp_all add: save_tasks_def Let_def)
  qed
qed

lemma projects_save_tasks [simp]: "projects (snd (save_tasks name df s)) = projects s"
proof (cases "get_project_id name s")
  case None
  then show ?thesis by (simp add: save_tasks_def Let_def)
next
  case (Some pid)
  from snd_save_tasks_cases [OF Some, of df] executemany_insert_adds
  show ?thesis by (elim disjE) simp_all
qed

lemma projects_id_seq_save_tasks [simp]:
  "projects_id_seq (snd (save_tasks name df s)) = projects_id_seq s"
proof (cases "get_project_id name s")
  case None
  then show ?thesis by (simp add: save_tasks_def Let_def)
next
  case (Some pid)
  from snd_save_tasks_cases [OF Some, of df] executemany_insert_adds
  show ?thesis by (elim disjE) simp_all
qed

lemma get_projects_save_tasks [simp]:
  "get_projects (snd (save_tasks name df s)) = get_projects s"
  by (simp add: get_projects_def)

lemma get_project_id_save_tasks [simp]:
  "get_project_id name' (snd (save_tasks name df s)) = get_project_id name' s"
  by (simp add: get_project_id_def)

text \<open>On every path save\_tasks leaves the rows of the other projects as they are, and
  a row it leaves behind was there before or belongs to the project.\<close>

lemma save_tasks_keeps_others:
  assumes "get_project_id name s = Some pid"
  shows "filter (\<lambda>t. t_project_id t \<noteq> Some pid) (tasks (snd (save_tasks name df s))) =
           filter (\<lambda>t. t_project_id t \<noteq> Some pid) (tasks s) \<and>
         (\<forall>t \<in> set (tasks (snd (save_tasks name df s))).
            t \<in> set (tasks s) \<or> t_project_id t = Some pid)"
proof -
  let ?s1 = "s\<lparr>tasks := filter (\<lambda>t. t_project_id t \<noteq> Some pid) (tasks s)\<rparr>"
  let ?rows = "map (\<lambda>row. (pid, S_No row, Task row, Comments row, Status row)) df"
  let ?r = "executemany_insert ?rows ?s1"
  from executemany_insert_adds [of ?rows ?s1] obtain new where
    new: "tasks (snd ?r) = filter (\<lambda>t. t_project_id t \<noteq> Some pid) (tasks s) @ new"
      and own: "\<forall>t \<in> set new. \<exists>row \<in> set ?rows. t_project_id t = Some (fst row)"
    by auto
  from own have own': "\<forall>t \<in> set new. t_project_id t = Some pid"
    by auto
  then have no: "filter (\<lambda>t. t_project_id t \<noteq> Some pid) new = []"
    by (simp add: filter_empty_conv)
  have cases: "tasks (snd (save_tasks name df s)) = tasks (snd ?r) \<or>
               tasks (snd (save_tasks name df s)) = tasks ?s1 \<or>
               tasks (snd (save_tasks name df s)) = tasks s"
    using snd_save_tasks_cases [OF assms, of df] by (elim disjE) simp_all
  then show ?thesis
  proof (elim disjE)
    assume "tasks (snd (save_tasks name df s)) = tasks (snd ?r)"
    then show ?thesis using new no own' by auto
  next
    assume "tasks (snd (save_tasks name df s)) = tasks ?s1"
    then show ?thesis by auto
  next
    assume "tasks (snd (save_tasks name df s)) = tasks s"
    then show ?thesis by auto
  qed
qed

text \<open>When every row of the frame can be stored, save\_tasks succeeds and the rows of
  the project are the rows of the frame, in the order of the frame.\<close>

lemma save_tasks_storable:
  assumes "get_project_id name s = Some pid" and "\<forall>r \<in> set df. storable r"
  shows "fst (save_tasks name df s) = None \<and>
         (\<exists>new. tasks (snd (save_tasks name df s)) =
                  filter (\<lambda>t. t_project_id t \<noteq> Some pid) (tasks s) @ new \<and>
                map task_columns new =
                  map (\<lambda>row. (Some pid, S_No row, Task row, Comments row, Status row)) df)"
proof (cases "df = []")
  case True
  with assms show ?thesis by (simp add: save_tasks_def Let_def)
next
  case False
  let ?s1 = "s\<lparr>tasks := filter (\<lambda>t. t_project_id t \<noteq> Some pid) (tasks s)\<rparr>"
  let ?rows = "map (\<lambda>row. (pid, S_No row, Task row, Comments row, Status row)) df"
  from assms(2) have "\<forall>(pid, sno, task, comments, status) \<in> set ?rows.
             int4_range sno \<and> \<not> has_nul task \<and> \<not> has_nul comments \<and> \<not> has_nul status"
    by (auto simp: storable_def)
  from executemany_insert_ok [OF this, of ?s1] obtain new where
    ok: "fst (executemany_insert ?rows ?s1) = None"
    and new: "tasks (snd (executemany_insert ?rows ?s1)) = tasks ?s1 @ new"
    and cols: "map task_columns new = map (\<lambda>(pid, r). (Some pid, r)) ?rows"
    by blast
  from ok obtain s2 where r: "executemany_insert ?rows ?s1 = (None, s2)"
    by (cases "executemany_insert ?rows ?s1") auto
  with assms(1) False have "save_tasks name df s = (None, s2)"
    by (simp add: save_tasks_def Let_def)
  with new cols r show ?thesis
    by (intro conjI exI[of _ new]) (simp_all add: o_def)
qed

lemma columns_Cons:
  assumes "map task_columns (t # new) =
           map (\<lambda>row. (Some pid, S_No row, Task row, Comments row, Status row)) df"
  obtains r df' where "df = r # df'"
    and "task_columns t = (Some pid, S_No r, Task r, Comments r, Status r)"
    and "map task_columns new =
           map (\<lambda>row. (Some pid, S_No row, Task row, Comments row, Status row)) df'"
  using assms by (cases df) auto

lemma frame_row_of_columns:
  assumes "map task_columns new =
           map (\<lambda>row. (Some pid, S_No row, Task row, Comments row, Status row)) df"
  shows "map frame_row_of new = df"
  using assms
proof (induction new arbitrary: df)
  case Nil
  then show ?case by simp
next
  case (Cons t new)
  from Cons.prems obtain r df' where df: "df = r # df'"
    and hd: "task_columns t = (Some pid, S_No r, Task r, Comments r, Status r)"
    and tl: "map task_columns new =
           map (\<lambda>row. (Some pid, S_No row, Task row, Comments row, Status row)) df'"
    by (rule columns_Cons)
  from hd have "frame_row_of t = r"
    by (simp add: frame_row_of_def task_columns_def)
  moreover from Cons.IH [OF tl] have "map frame_row_of new = df'" .
  ultimately show ?case by (simp add: df)
qed

lemma project_id_of_columns:
  assumes "map task_columns new =
           map (\<lambda>row. (Some pid, S_No row, Task row, Comments row, Status row)) df"
  shows "\<forall>t \<in> set new. t_project_id t = Some pid"
  using assms
proof (induction new arbitrary: df)
  case Nil
  then show ?case by simp
next
  case (Cons t new)
  from Cons.prems obtain r df' where df: "df = r # df'"
    and hd: "task_columns t = (Some pid, S_No r, Task r, Comments r, Status r)"
    and tl: "map task_columns new =
           map (\<lambda>row. (Some pid, S_No row, Task row, Comments row, Status row)) df'"
    by (rule columns_Cons)
  from hd have "t_project_id t = Some pid"
    by (simp add: task_columns_def)
  moreover from Cons.IH [OF tl] have "\<forall>t \<in> set new. t_project_id t = Some pid" .
  ultimately show ?case by simp
qed

subsection \<open>The frame of the rows a store holds\<close>

lemma astype_int_Number: "astype_int (map Number ns) = Inr ns"
  by (induction ns) simp_all


lemma frame_of_stored_rows:
  "frame_of_rows env
     (map (\<lambda>t. \<lparr>f_sno = IntVal (t_sno t), f_task = Some (t_task t),
                f_comments = Some (t_comments t), f_status = Some (t_status t)\<rparr>) ts) =
   Inr (map frame_row_of ts)"
proof -
  let ?cells = "\<lambda>t. \<lparr>f_sno = IntVal (t_sno t), f_task = Some (t_task t),
                f_comments = Some (t_comments t), f_status = Some (t_status t)\<rparr>"
  have "fillna_0 (to_numeric_coerce env (map f_sno (map ?cells ts))) =
        map Number (map (\<lambda>t. sint (t_sno t)) ts)"
    by (simp add: to_numeric_coerce_def fillna_0_def o_def)
  then have "astype_int (fillna_0 (to_numeric_coerce env (map f_sno (map ?cells ts)))) =
        Inr (map (\<lambda>t. sint (t_sno t)) ts)"
    by (simp only: astype_int_Number)
  moreover have "map (\<lambda>(n, r). \<lparr>S_No = n, Task = fillna '''' (f_task r),
                   Comments = fillna '''' (f_comments r),
                   Status = fillna ''Pending'' (f_status r)\<rparr>)
          (zip (map (\<lambda>t. sint (t_sno t)) ts) (map ?cells ts)) = map frame_row_of ts"
    by (induction ts) (simp_all add: frame_row_of_def fillna_def)
  ultimately show ?thesis
    by (simp add: frame_of_rows_def)
qed

text \<open>On the rows a store holds the coercions of \<^verbatim>\<open>load_tasks\<close> change nothing and do
  not raise.\<close>

lemma load_tasks_eq:
  "load_tasks env name s =
     Inr (case get_project_id name s of
            None \<Rightarrow> []
          | Some pid \<Rightarrow>
              map frame_row_of
                (sort_key (\<lambda>t. sint (t_sno t))
                   (sort_key (tie_order env (filter (\<lambda>t. t_project_id t = Some pid) (tasks s)))
                      (filter (\<lambda>t. t_project_id t = Some pid) (tasks s)))))"
proof (cases "get_project_id name s")
  case None
  then show ?thesis by (simp add: load_tasks_def empty_df_def)
next
  case (Some pid)
  show ?thesis
    unfolding load_tasks_def fetch_tasks_def Let_def Some option.case frame_of_stored_rows
    by (simp add: empty_df_def)
qed

subsection \<open>Sorting rows with distinct keys\<close>

lemma filter_key_singleton:
  "distinct (map f xs) \<Longrightarrow> k \<in> set xs \<Longrightarrow> filter (\<lambda>x. f k = f x) xs = [k]"
proof (induction xs)
  case Nil
  then show ?case by simp
next
  case (Cons a xs)
  show ?case
  proof (cases "k = a")
    case True
    with Cons.prems have "\<forall>x \<in> set xs. f a \<noteq> f x" by auto
    then have "filter (\<lambda>x. f a = f x) xs = []" by (simp add: filter_empty_conv)
    with True show ?thesis by simp
  next
    case False
    with Cons.prems have k: "k \<in> set xs" by simp
    then have "f k \<in> f ` set xs" by simp
    with Cons.prems have "f k \<noteq> f a" by auto
    with Cons k show ?thesis by simp
  qed
qed

text \<open>Rows in strictly ascending order of their keys come back in that order from the
  sort, in whatever order they were delivered to it.\<close>

lemma sort_key_strict_unique:
  assumes "sorted_wrt (<) (map f xs)" and "mset ys = mset xs"
  shows "sort_key f ys = xs"
proof (rule properties_for_sort_key)
  show "mset xs = mset ys" using assms(2) by simp
  from assms(1) have d: "distinct (map f xs)" and "sorted (map f xs)"
    by (simp_all add: strict_sorted_iff)
  then show "sorted (map f xs)" by simp
  from assms(2) have "mset (map f ys) = mset (map f xs)" by simp
  with d have d': "distinct (map f ys)"
    by (metis mset_eq_imp_distinct_iff)
  fix k assume k: "k \<in> set xs"
  with assms(2) have "k \<in> set ys" by (metis mset_eq_setD)
  with d' have "filter (\<lambda>x. f k = f x) ys = [k]" by (rule filter_key_singleton)
  moreover from d k have "filter (\<lambda>x. f k = f x) xs = [k]" by (rule filter_key_singleton)
  ultimately show "filter (\<lambda>x. f k = f x) xs = filter (\<lambda>x. f k = f x) ys" by simp
qed

subsection \<open>The schema's constraints hold in every run\<close>

lemma store_ok_init_db: "store_ok init_db"
  by (simp add: store_ok_def init_db_def)

lemma store_ok_create_project:
  assumes "store_ok s"
  shows "store_ok (snd (create_project name s))"
proof (cases "name \<in> set (map p_name (projects s))")
  case True
  with assms show ?thesis
    by (auto simp: store_ok_def create_project_def Let_def)
next
  case False
  from assms have "\<forall>p \<in> set (projects s). p_id p \<noteq> Suc (projects_id_seq s)"
    by (fastforce simp: store_ok_def)
  with assms False show ?thesis
    by (auto simp: store_ok_def create_project_def Let_def)
qed

lemma store_ok_delete_project:
  assumes "store_ok s"
  shows "store_ok (snd (delete_project name s))"
proof -
  let ?s' = "snd (delete_project name s)"
  have p: "projects ?s' = filter (\<lambda>p. p_name p \<noteq> name) (projects s)"
    and q: "projects_id_seq ?s' = projects_id_seq s"
    and t: "tasks ?s' = filter (\<lambda>t. case t_project_id t of None \<Rightarrow> True
               | Some i \<Rightarrow> i \<notin> set (map p_id (filter (\<lambda>p. p_name p = name) (projects s))))
               (tasks s)"
    by (simp_all add: delete_project_def)
  have "distinct (map p_id (projects ?s'))" "distinct (map p_name (projects ?s'))"
    using assms unfolding p store_ok_def by (simp_all add: distinct_map_filter)
  moreover have "\<forall>p \<in> set (projects ?s'). p_id p \<le> projects_id_seq ?s'"
    using assms unfolding p q store_ok_def by simp
  moreover have "\<forall>t \<in> set (tasks ?s'). \<exists>p \<in> set (projects ?s'). t_project_id t = Some (p_id p)"
  proof
    fix t assume "t \<in> set (tasks ?s')"
    then have t_in: "t \<in> set (tasks s)"
      and keep: "case t_project_id t of None \<Rightarrow> True
               | Some i \<Rightarrow> i \<notin> set (map p_id (filter (\<lambda>p. p_name p = name) (projects s)))"
      unfolding t by simp_all
    from assms t_in obtain p where "p \<in> set (projects s)" and pid: "t_project_id t = Some (p_id p)"
      by (auto simp: store_ok_def)
    with keep have "p_name p \<noteq> name" by auto
    with \<open>p \<in> set (projects s)\<close> have "p \<in> set (projects ?s')" unfolding p by simp
    with pid show "\<exists>p \<in> set (projects ?s'). t_project_id t = Some (p_id p)" by blast
  qed
  ultimately show ?thesis by (simp add: store_ok_def)
qed

lemma store_ok_save_tasks:
  assumes "store_ok s"
  shows "store_ok (snd (save_tasks name df s))"
proof (cases "get_project_id name s")
  case None
  with assms show ?thesis by (simp add: save_tasks_def Let_def)
next
  case (Some pid)
  let ?s' = "snd (save_tasks name df s)"
  from save_tasks_keeps_others [OF Some, of df]
  have mem: "\<forall>t \<in> set (tasks ?s'). t \<in> set (tasks s) \<or> t_project_id t = Some pid"
    by blast
  from get_project_id_Some_mem [OF Some] obtain p where p: "p \<in> set (projects s)" "p_id p = pid"
    by blast
  have "\<forall>t \<in> set (tasks ?s'). \<exists>p \<in> set (projects s). t_project_id t = Some (p_id p)"
  proof
    fix t assume "t \<in> set (tasks ?s')"
    with mem have "t \<in> set (tasks s) \<or> t_project_id t = Some pid" by blast
    then show "\<exists>p \<in> set (projects s). t_project_id t = Some (p_id p)"
    proof
      assume "t \<in> set (tasks s)"
      with assms show ?thesis by (simp add: store_ok_def)
    next
      assume "t_project_id t = Some pid"
      with p show ?thesis by blast
    qed
  qed
  with assms show ?thesis
    by (simp add: store_ok_def)
qed

lemma store_ok_exec: "store_ok s \<Longrightarrow> store_ok (exec c s)"
  by (cases c) (simp_all add: store_ok_create_project store_ok_delete_project store_ok_save_tasks)

lemma run_snoc: "run (cmds @ [c]) s = exec c (run cmds s)"
  by (simp add: run_def)

lemma store_ok_run: "store_ok (run cmds init_db)"
  by (induction cmds rule: rev_induct)
     (simp_all add: run_snoc store_ok_exec run_def store_ok_init_db)

lemma length_filter_key:
  "distinct (map f xs) \<Longrightarrow> x \<in> set xs \<Longrightarrow> length (filter (\<lambda>y. f y = f x) xs) = 1"
proof (induction xs)
  case Nil
  then show ?case by simp
next
  case (Cons a xs)
  show ?case
  proof (cases "f a = f x")
    case True
    with Cons.prems have "\<forall>y \<in> set xs. f y \<noteq> f x"
      by (metis distinct.simps(2) image_eqI list.simps(9) set_map)
    then have "filter (\<lambda>y. f y = f x) xs = []" by (simp add: filter_empty_conv)
    with True show ?thesis by simp
  next
    case False
    with Cons show ?thesis by auto
  qed
qed

subsection \<open>Listing after a creation or a deletion\<close>







subsection \<open>The example stores, evaluated\<close>

lemma audit_store_eq:
  "audit_store =
     \<lparr>projects = [\<lparr>p_id = 1, p_name = ''Audit''\<rparr>],
      tasks = [\<lparr>t_id = 1, t_project_id = Some 1, t_sno = 1, t_task = ''Review logs'',
                 t_comments = '''', t_status = ''Pending''\<rparr>,
               \<lparr>t_id = 2, t_project_id = Some 1, t_sno = 2, t_task = ''Patch CVE'',
                 t_comments = ''urgent'', t_status = ''Partial''\<rparr>],
      projects_id_seq = 1, tasks_id_seq = 2\<rparr>"
  by (simp add: audit_store_def audit_tasks_def run_def init_db_def create_project_def
        save_tasks_def get_project_id_def Let_def int4_range_def has_nul_def)


lemma load_audit_store: "load_tasks env ''Audit'' audit_store = Inr audit_tasks"
  by (simp add: load_tasks_eq audit_store_eq audit_tasks_def get_project_id_def frame_row_of_def)

text \<open>The end-to-end example of the specification: after the save the load returns the
  two records in their order; after the deletion the load is empty and the listing no
  longer holds the name.\<close>

lemma audit_example:
  "load_tasks env ''Audit'' audit_store = Inr audit_tasks \<and>
   load_tasks env ''Audit'' (snd (delete_project ''Audit'' audit_store)) = Inr [] \<and>
   get_projects (snd (delete_project ''Audit'' audit_store)) = []"
  by (simp add: load_audit_store)
     (simp add: load_tasks_eq audit_store_eq get_project_id_def delete_project_def get_projects_def)

section \<open>The claims\<close>

text \<open>
  C1. For an existing project \<open>p\<close> and any frame \<open>rs\<close> whose records the table can
  hold (each \<^verbatim>\<open>S.No.\<close> within the \<^verbatim>\<open>INTEGER\<close> column, no NUL in a text),
  \<^verbatim>\<open>save_tasks(p, rs)\<close> succeeds and \<^verbatim>\<open>load_tasks(p)\<close> then returns the records of
  \<open>rs\<close> (the surrogate key is not part of a frame row), in ascending order of
  \<^verbatim>\<open>S.No.\<close>: the same records with the same multiplicities, sorted, whatever order the
  engine gives to rows with equal \<^verbatim>\<open>S.No.\<close>; and when \<open>rs\<close> is itself strictly
  ascending, exactly \<open>rs\<close>.
\<close>

theorem save_then_load:
  assumes "p \<in> set (get_projects s)"
    and "\<forall>r \<in> set rs. storable r"
  shows "fst (save_tasks p rs s) = None \<and>
         (\<exists>loaded. load_tasks env p (snd (save_tasks p rs s)) = Inr loaded \<and>
            mset loaded = mset rs \<and>
            sorted (map S_No loaded) \<and>
            (sorted_wrt (<) (map S_No rs) \<longrightarrow> loaded = rs))"
proof -
  let ?s' = "snd (save_tasks p rs s)"
  let ?key = "\<lambda>t. sint (t_sno t)"
  from assms(1) obtain pid where pid: "get_project_id p s = Some pid"
    using get_project_id_None_iff [of p s] by auto
  from save_tasks_storable [OF pid assms(2)] obtain new where
    ok: "fst (save_tasks p rs s) = None"
    and new: "tasks ?s' = filter (\<lambda>t. t_project_id t \<noteq> Some pid) (tasks s) @ new"
      "map task_columns new =
         map (\<lambda>row. (Some pid, S_No row, Task row, Comments row, Status row)) rs"
    by blast
  note rows = frame_row_of_columns [OF new(2)]
  note owner = project_id_of_columns [OF new(2)]
  have sel: "filter (\<lambda>t. t_project_id t = Some pid) (tasks ?s') = new"
    using owner by (simp add: new(1) filter_id_conv)
  let ?delivered = "sort_key (tie_order env new) new"
  let ?loaded = "map frame_row_of (sort_key ?key ?delivered)"
  have load: "load_tasks env p ?s' = Inr ?loaded"
    by (simp add: load_tasks_eq pid sel)
  have key: "map S_No (map frame_row_of xs) = map ?key xs" for xs
    by (simp add: frame_row_of_def)
  have "mset ?loaded = mset (map frame_row_of new)"
    by simp
  then have same: "mset ?loaded = mset rs"
    by (simp only: rows)
  have ordered: "sorted (map S_No ?loaded)"
    by (simp only: key) simp
  have exact: "?loaded = rs" if "sorted_wrt (<) (map S_No rs)"
  proof -
    from that have "sorted_wrt (<) (map ?key new)"
      using key [of new] by (simp only: rows)
    moreover have "mset ?delivered = mset new" by simp
    ultimately have "sort_key ?key ?delivered = new"
      by (rule sort_key_strict_unique)
    then show ?thesis
      by (simp only: rows)
  qed
  from ok load same ordered exact show ?thesis by blast
qed

theorem save_then_load_witness:
  "''Audit'' \<in> set (get_projects audit_store) \<and>
   list_all storable audit_tasks \<and>
   sorted_wrt (<) (map S_No audit_tasks) \<and>
   fst (save_tasks ''Audit'' audit_tasks audit_store) = None \<and>
   load_tasks plain ''Audit'' (snd (save_tasks ''Audit'' audit_tasks audit_store)) =
     Inr audit_tasks"
proof -
  have h: "''Audit'' \<in> set (get_projects audit_store)"
    by (simp add: audit_store_eq get_projects_def)
  have v: "list_all storable audit_tasks"
    by (simp add: audit_tasks_def storable_def int4_range_def has_nul_def)
  then have v': "\<forall>r \<in> set audit_tasks. storable r"
    by (simp add: list_all_iff)
  have o: "sorted_wrt (<) (map S_No audit_tasks)"
    by (simp add: audit_tasks_def)
  from save_then_load [OF h v', of plain] o
  have "fst (save_tasks ''Audit'' audit_tasks audit_store) = None"
    and "load_tasks plain ''Audit'' (snd (save_tasks ''Audit'' audit_tasks audit_store)) =
           Inr audit_tasks"
    by auto
  with h v o show ?thesis by simp
qed

text \<open>
  The round trip as the specification states it, for every frame of integers and texts,
  fails on a frame the table cannot hold. With an \<^verbatim>\<open>S.No.\<close> of 2147483648 the save
  raises and writes nothing, so the load returns the two records saved before. With a
  NUL in a text the save raises after the delete, and the load returns no record.
\<close>

theorem save_then_load_counterexample:
  "''Audit'' \<in> set (get_projects audit_store) \<and>
   fst (save_tasks ''Audit'' overflow_tasks audit_store) = Some NumericValueOutOfRange \<and>
   load_tasks plain ''Audit'' (snd (save_tasks ''Audit'' overflow_tasks audit_store)) =
     Inr audit_tasks \<and>
   mset audit_tasks \<noteq> mset overflow_tasks \<and>
   fst (save_tasks ''Audit'' nul_tasks audit_store) = Some ValueError \<and>
   load_tasks plain ''Audit'' (snd (save_tasks ''Audit'' nul_tasks audit_store)) = Inr [] \<and>
   mset [] \<noteq> mset nul_tasks"
proof -
  have h: "''Audit'' \<in> set (get_projects audit_store)"
    by (simp add: audit_store_eq get_projects_def)
  have o: "save_tasks ''Audit'' overflow_tasks audit_store =
      (Some NumericValueOutOfRange, audit_store)"
    by (simp add: audit_store_eq save_tasks_def get_project_id_def overflow_tasks_def
          int4_range_def has_nul_def)
  have n: "save_tasks ''Audit'' nul_tasks audit_store =
      (Some ValueError, audit_store\<lparr>tasks := []\<rparr>)"
    by (simp add: audit_store_eq save_tasks_def get_project_id_def nul_tasks_def
          int4_range_def has_nul_def)
  have l: "load_tasks plain ''Audit'' (audit_store\<lparr>tasks := []\<rparr>) = Inr []"
    by (simp add: load_tasks_eq audit_store_eq get_project_id_def)
  have d: "mset audit_tasks \<noteq> mset overflow_tasks"
    by (simp add: audit_tasks_def overflow_tasks_def)
  have e: "mset [] \<noteq> mset nul_tasks"
    by (simp add: nul_tasks_def)
  from h d e show ?thesis
    by (simp add: o n l load_audit_store)
qed







text \<open>
  C5. For an existing project, saving the empty frame leaves no task row of the project,
  and the load that follows returns the empty frame.
\<close>

theorem save_empty_clears:
  assumes "p \<in> set (get_projects s)"
  shows "(\<exists>pid. get_project_id p s = Some pid \<and>
            filter (\<lambda>t. t_project_id t = Some pid) (tasks (snd (save_tasks p [] s))) = []) \<and>
         load_tasks env p (snd (save_tasks p [] s)) = Inr empty_df"
proof -
  from assms obtain pid where pid: "get_project_id p s = Some pid"
    using get_project_id_None_iff [of p s] by auto
  then have t: "tasks (snd (save_tasks p [] s)) =
      filter (\<lambda>t. t_project_id t \<noteq> Some pid) (tasks s)"
    by (simp add: save_tasks_def)
  have none: "filter (\<lambda>t. t_project_id t = Some pid) (tasks (snd (save_tasks p [] s))) = []"
    by (simp add: t filter_empty_conv)
  then have "load_tasks env p (snd (save_tasks p [] s)) = Inr empty_df"
    by (simp add: load_tasks_eq pid empty_df_def)
  with pid none show ?thesis by blast
qed

theorem save_empty_clears_witness:
  "''Audit'' \<in> set (get_projects audit_store) \<and>
   load_tasks plain ''Audit'' audit_store = Inr audit_tasks \<and>
   tasks (snd (save_tasks ''Audit'' [] audit_store)) = [] \<and>
   load_tasks plain ''Audit'' (snd (save_tasks ''Audit'' [] audit_store)) = Inr []"
proof -
  have h: "''Audit'' \<in> set (get_projects audit_store)"
    by (simp add: audit_store_eq get_projects_def)
  have t: "tasks (snd (save_tasks ''Audit'' [] audit_store)) = []"
    by (simp add: save_tasks_def audit_store_eq get_project_id_def)
  from save_empty_clears [OF h, of plain] h t show ?thesis
    by (simp add: empty_df_def load_audit_store)
qed





text \<open>
  C8. After any run of the six operations from the empty store, every task row
  references exactly one project row of the store through its \<^verbatim>\<open>project_id\<close>.
\<close>

theorem task_references_one_project:
  "\<forall>t \<in> set (tasks (run cmds init_db)).
     length (filter (\<lambda>p. t_project_id t = Some (p_id p)) (projects (run cmds init_db))) = 1"
proof
  let ?s = "run cmds init_db"
  fix t assume "t \<in> set (tasks ?s)"
  with store_ok_run [of cmds] obtain p
    where p: "p \<in> set (projects ?s)" "t_project_id t = Some (p_id p)"
      and d: "distinct (map p_id (projects ?s))"
    by (auto simp: store_ok_def)
  from length_filter_key [OF d p(1)]
  have "length (filter (\<lambda>q. p_id q = p_id p) (projects ?s)) = 1" .
  moreover have "filter (\<lambda>q. t_project_id t = Some (p_id q)) (projects ?s) =
      filter (\<lambda>q. p_id q = p_id p) (projects ?s)"
    by (rule filter_cong) (use p(2) in auto)
  ultimately show "length (filter (\<lambda>p. t_project_id t = Some (p_id p)) (projects ?s)) = 1"
    by simp
qed

theorem task_references_one_project_witness:
  "\<lparr>t_id = 2, t_project_id = Some 1, t_sno = 2, t_task = ''Patch CVE'',
     t_comments = ''urgent'', t_status = ''Partial''\<rparr> \<in> set (tasks audit_store) \<and>
   length (filter (\<lambda>p. Some 1 = Some (p_id p)) (projects audit_store)) = 1"
proof -
  let ?t = "\<lparr>t_id = 2, t_project_id = Some 1, t_sno = 2, t_task = ''Patch CVE'',
     t_comments = ''urgent'', t_status = ''Partial''\<rparr>"
  have h: "?t \<in> set (tasks (run [CreateProject ''Audit'', SaveTasks ''Audit'' audit_tasks] init_db))"
    by (simp add: audit_store_def [symmetric] audit_store_eq)
  from bspec [OF task_references_one_project h] h show ?thesis
    by (simp add: audit_store_def [symmetric])
qed





end
